theory Spec2Isabelle
  imports Complex_Main "HOL-Library.Word"
begin

unbundle bit_operations_syntax

section \<open>The sigil generator (generate_sigils.py)\<close>

text \<open>
  A shallow embedding of \<^verbatim>\<open>data/generate_sigils.py\<close>. Python integers are unbounded and
  are modelled as \<^typ>\<open>int\<close> (\<open>//\<close> and \<open>%\<close> round towards minus infinity, as \<open>div\<close> and
  \<open>mod\<close> do). A \<^verbatim>\<open>bytes\<close> value is a list of 8-bit words. Every exception the code can
  raise is a value of \<open>error\<close>; a function that can raise returns \<open>error + 'a\<close>.
  Console output and the two files written by \<^verbatim>\<open>main\<close> are not modelled: the model of
  \<^verbatim>\<open>main\<close> is the byte string \<^verbatim>\<open>total_data\<close> that it writes.
\<close>

type_synonym byte = "8 word"

datatype error = KeyError | UnicodeEncodeError | StructError

subsection \<open>Constant tables\<close>

definition SOLFEGGIO :: "int \<rightharpoonup> int" where
  "SOLFEGGIO = map_of
     [(1, 174), (2, 285), (3, 396), (4, 417), (5, 528), (6, 639), (7, 741), (8, 852), (9, 963)]"

text \<open>
  The durations of the breath table are Python ints and floats. All of them are finite,
  and every finite int or float is a rational number, so a duration is a \<^typ>\<open>rat\<close>;
  \<^verbatim>\<open>int(seconds)\<close> is exact on those (truncation towards zero).
\<close>

type_synonym pattern = "rat \<times> rat \<times> rat \<times> rat"

definition BREATH_PATTERNS :: "int \<rightharpoonup> pattern" where
  "BREATH_PATTERNS = map_of
     [(1, (4, 2, 4, 2)),
      (2, (7 / 2, 3 / 2, 7 / 2, 3 / 2)),
      (3, (3, 1, 3, 1)),
      (4, (5 / 2, 3 / 2, 5 / 2, 3 / 2)),
      (5, (2, 2, 2, 2)),
      (6, (5 / 2, 1, 7 / 2, 1)),
      (7, (3 / 2, 1 / 2, 5 / 2, 1 / 2)),
      (8, (2, 1, 2, 1)),
      (9, (1, 3, 1, 3))]"

definition FLAG_ACTIVE :: int where "FLAG_ACTIVE = 0x01"
definition FLAG_ANCHORED :: int where "FLAG_ANCHORED = 0x02"
definition FLAG_RESONANT :: int where "FLAG_RESONANT = 0x04"
definition FLAG_TRIAD :: int where "FLAG_TRIAD = 0x08"
definition FLAG_K_FORMATION :: int where "FLAG_K_FORMATION = 0x10"

subsection \<open>int_to_ternary\<close>

definition ternary_digit :: "int \<Rightarrow> char" where
  "ternary_digit digit =
     (if digit = 0 then CHR ''0'' else if digit = 1 then CHR ''1'' else CHR ''T'')"

text \<open>
  The body of \<^verbatim>\<open>for _ in range(5)\<close>, run \<open>n\<close> times on the loop state
  (\<open>value\<close>, \<open>result\<close>); \<^verbatim>\<open>result.append(c)\<close> adds at the end.
\<close>

fun ternary_loop :: "nat \<Rightarrow> int \<Rightarrow> string \<Rightarrow> string" where
  "ternary_loop 0 v result = result"
| "ternary_loop (Suc n) v result =
     ternary_loop n (v div 3) (result @ [ternary_digit (v mod 3)])"

definition int_to_ternary :: "int \<Rightarrow> string" where
  "int_to_ternary v =
     (let v' = (if v < 0 \<or> v > 242 then v mod 243 else v)
      in rev (ternary_loop 5 v' []))"

subsection \<open>encode_breath_pattern\<close>

text \<open>Python's \<^verbatim>\<open>int(x)\<close> on a finite number: truncation towards zero.\<close>

definition py_int :: "rat \<Rightarrow> int" where
  "py_int x = (if 0 \<le> x then \<lfloor>x\<rfloor> else \<lceil>x\<rceil>)"

definition encode_phase :: "rat \<Rightarrow> int" where
  "encode_phase seconds =
     (let s = py_int seconds
      in if s \<le> 1 then 0 else if s \<le> 2 then 1 else if s \<le> 3 then 2 else 3)"

fun encode_breath_pattern :: "pattern \<Rightarrow> int" where
  "encode_breath_pattern (p0, p1, p2, p3) =
     (let encoded = 0;
          encoded = encoded OR encode_phase p0;
          encoded = encoded OR push_bit 2 (encode_phase p1);
          encoded = encoded OR push_bit 4 (encode_phase p2);
          encoded = encoded OR push_bit 6 (encode_phase p3)
      in encoded)"

subsection \<open>index_to_tier\<close>

text \<open>Line 107, the tier before \<^verbatim>\<open>min\<close> is applied.\<close>

definition tier_formula :: "int \<Rightarrow> int" where
  "tier_formula index = index * 9 div 121 + 1"

definition index_to_tier :: "int \<Rightarrow> int" where
  "index_to_tier index = (let tier = tier_formula index in min tier 9)"

subsection \<open>struct.pack and str.encode\<close>

text \<open>
  \<^verbatim>\<open>struct.pack\<close> with the byte order \<^verbatim>\<open><\<close>: little-endian, standard sizes, no padding
  between fields. \<^verbatim>\<open>B\<close>, \<^verbatim>\<open>H\<close> and \<^verbatim>\<open>I\<close> raise \<^verbatim>\<open>struct.error\<close> on a value outside
  their unsigned range; \<^verbatim>\<open>6s\<close> truncates a longer byte string and pads a shorter one
  with null bytes.
\<close>

definition pack_B :: "int \<Rightarrow> error + byte list" where
  "pack_B x = (if 0 \<le> x \<and> x \<le> 255 then Inr [word_of_int x] else Inl StructError)"

definition pack_H :: "int \<Rightarrow> error + byte list" where
  "pack_H x =
     (if 0 \<le> x \<and> x \<le> 65535
      then Inr [word_of_int (x mod 256), word_of_int (x div 256)]
      else Inl StructError)"

definition pack_I :: "int \<Rightarrow> error + byte list" where
  "pack_I x =
     (if 0 \<le> x \<and> x \<le> 4294967295
      then Inr [word_of_int (x mod 256), word_of_int (x div 256 mod 256),
                word_of_int (x div 65536 mod 256), word_of_int (x div 16777216)]
      else Inl StructError)"

definition pack_s :: "nat \<Rightarrow> byte list \<Rightarrow> byte list" where
  "pack_s n bs = take n bs @ replicate (n - length bs) 0"

text \<open>The format \<^verbatim>\<open><6sBHBB\<close> of \<^verbatim>\<open>generate_sigil\<close>.\<close>

definition pack_6sBHBB :: "byte list \<Rightarrow> int \<Rightarrow> int \<Rightarrow> int \<Rightarrow> int \<Rightarrow> error + byte list" where
  "pack_6sBHBB s a h b c =
     (case pack_B a of Inl e \<Rightarrow> Inl e | Inr ab \<Rightarrow>
     (case pack_H h of Inl e \<Rightarrow> Inl e | Inr hb \<Rightarrow>
     (case pack_B b of Inl e \<Rightarrow> Inl e | Inr bb \<Rightarrow>
     (case pack_B c of Inl e \<Rightarrow> Inl e | Inr cb \<Rightarrow>
      Inr (pack_s 6 s @ ab @ hb @ bb @ cb)))))"

text \<open>The format \<^verbatim>\<open><IBBH\<close> of \<^verbatim>\<open>generate_header\<close>.\<close>

definition pack_IBBH :: "int \<Rightarrow> int \<Rightarrow> int \<Rightarrow> int \<Rightarrow> error + byte list" where
  "pack_IBBH i a b h =
     (case pack_I i of Inl e \<Rightarrow> Inl e | Inr ib \<Rightarrow>
     (case pack_B a of Inl e \<Rightarrow> Inl e | Inr ab \<Rightarrow>
     (case pack_B b of Inl e \<Rightarrow> Inl e | Inr bb \<Rightarrow>
     (case pack_H h of Inl e \<Rightarrow> Inl e | Inr hb \<Rightarrow>
      Inr (ib @ ab @ bb @ hb)))))"

text \<open>\<^verbatim>\<open>s.encode('ascii')\<close>: one byte per character, an error on a character above 127.\<close>

definition encode_ascii :: "string \<Rightarrow> error + byte list" where
  "encode_ascii s =
     (if list_all (\<lambda>c. (of_char c :: nat) < 128) s
      then Inr (map of_char s) else Inl UnicodeEncodeError)"

subsection \<open>generate_sigil\<close>

text \<open>Lines 128 to 134: the flags of an index.\<close>

definition sigil_flags :: "int \<Rightarrow> int" where
  "sigil_flags index =
     (let flags = FLAG_ACTIVE;
          flags = (if index \<in> set [0, 60, 120] then flags OR FLAG_ANCHORED else flags);
          flags = (if 40 \<le> index \<and> index \<le> 50 then flags OR FLAG_TRIAD else flags);
          flags = (if 90 \<le> index \<and> index \<le> 100 then flags OR FLAG_K_FORMATION else flags)
      in flags)"

definition generate_sigil :: "int \<Rightarrow> error + byte list" where
  "generate_sigil index =
     (let code = int_to_ternary index in
     (case encode_ascii (code @ [CHR 0x00]) of Inl e \<Rightarrow> Inl e | Inr code_bytes \<Rightarrow>
      let region_id = index;
          tier = index_to_tier index in
     (case SOLFEGGIO tier of None \<Rightarrow> Inl KeyError | Some frequency \<Rightarrow>
     (case BREATH_PATTERNS tier of None \<Rightarrow> Inl KeyError | Some pat \<Rightarrow>
      let breath = encode_breath_pattern pat;
          flags = sigil_flags index
      in pack_6sBHBB code_bytes region_id frequency breath flags))))"

subsection \<open>generate_header and main\<close>

definition generate_header :: "error + byte list" where
  "generate_header =
     (let MAGIC = 0x5347494C; VERSION = 1; COUNT = 121; checksum = 0
      in pack_IBBH MAGIC VERSION COUNT checksum)"

text \<open>
  The loop \<^verbatim>\<open>for i in range(121)\<close> of \<^verbatim>\<open>main\<close> over the remaining indices, with
  \<^verbatim>\<open>sigils_data\<close> as its state; an exception of \<^verbatim>\<open>generate_sigil\<close> ends the run.
\<close>

fun sigils_loop :: "int list \<Rightarrow> byte list \<Rightarrow> error + byte list" where
  "sigils_loop [] sigils_data = Inr sigils_data"
| "sigils_loop (i # rest) sigils_data =
     (case generate_sigil i of Inl e \<Rightarrow> Inl e
      | Inr sigil_data \<Rightarrow> sigils_loop rest (sigils_data @ sigil_data))"

text \<open>The value \<^verbatim>\<open>total_data\<close> that \<^verbatim>\<open>main\<close> writes to \<^verbatim>\<open>sigils.bin\<close>.\<close>

definition main_total_data :: "error + byte list" where
  "main_total_data =
     (case generate_header of Inl e \<Rightarrow> Inl e | Inr header \<Rightarrow>
     (case sigils_loop [0..120] [] of Inl e \<Rightarrow> Inl e | Inr sigils_data \<Rightarrow>
      Inr (header @ sigils_data)))"

subsection \<open>Reading a field back\<close>

text \<open>
  The unsigned value of a little-endian field, as the reader of the blob decodes it
  (\<^verbatim>\<open>struct.unpack\<close> with \<^verbatim>\<open><H\<close> or \<^verbatim>\<open><I\<close>). It is used to state what a multi-byte field
  holds.
\<close>

fun le_uint :: "byte list \<Rightarrow> nat" where
  "le_uint [] = 0"
| "le_uint (b # bs) = unat b + 256 * le_uint bs"

section \<open>The ternary code\<close>

lemma div3_div3: "(v::int) div 3 div 3 = v div 9"
  using zdiv_zmult2_eq [of 3 v 3] by simp

lemma div9_div3: "(v::int) div 9 div 3 = v div 27"
  using zdiv_zmult2_eq [of 3 v 9] by simp

lemma div27_div3: "(v::int) div 27 div 3 = v div 81"
  using zdiv_zmult2_eq [of 3 v 27] by simp

text \<open>Five rounds of the loop append the five base-3 digits, least significant first.\<close>

lemma ternary_loop_5:
  "ternary_loop 5 v acc =
     acc @ [ternary_digit (v mod 3), ternary_digit (v div 3 mod 3), ternary_digit (v div 9 mod 3),
            ternary_digit (v div 27 mod 3), ternary_digit (v div 81 mod 3)]"
  by (simp add: eval_nat_numeral div3_div3 div9_div3 div27_div3)

lemma int_to_ternary_digits:
  "int_to_ternary v =
     [ternary_digit (v mod 243 div 81 mod 3), ternary_digit (v mod 243 div 27 mod 3),
      ternary_digit (v mod 243 div 9 mod 3), ternary_digit (v mod 243 div 3 mod 3),
      ternary_digit (v mod 243 mod 3)]"
proof -
  have "(if v < 0 \<or> v > 242 then v mod 243 else v) = v mod 243"
    by simp
  then show ?thesis
    by (simp add: int_to_ternary_def ternary_loop_5 Let_def del: ternary_loop.simps)
qed

lemma ternary_digit_alphabet: "ternary_digit d \<in> {CHR ''0'', CHR ''1'', CHR ''T''}"
  by (simp add: ternary_digit_def)

lemma ternary_digit_inj:
  "0 \<le> a \<Longrightarrow> a < 3 \<Longrightarrow> 0 \<le> b \<Longrightarrow> b < 3 \<Longrightarrow> ternary_digit a = ternary_digit b \<Longrightarrow> a = b"
  by (auto simp: ternary_digit_def split: if_splits)

lemma base3_expansion:
  fixes v :: int
  assumes "0 \<le> v" "v < 243"
  shows "v = 81 * (v div 81 mod 3) + 27 * (v div 27 mod 3) + 9 * (v div 9 mod 3)
             + 3 * (v div 3 mod 3) + v mod 3"
proof -
  have s1: "v = 3 * (v div 3) + v mod 3" by simp
  have s2: "v div 3 = 3 * (v div 9) + v div 3 mod 3"
    using mult_div_mod_eq [of 3 "v div 3"] by (simp add: div3_div3)
  have s3: "v div 9 = 3 * (v div 27) + v div 9 mod 3"
    using mult_div_mod_eq [of 3 "v div 9"] by (simp add: div9_div3)
  have s4: "v div 27 = 3 * (v div 81) + v div 27 mod 3"
    using mult_div_mod_eq [of 3 "v div 27"] by (simp add: div27_div3)
  have "0 \<le> v div 81" "v div 81 < 3" using assms by simp_all
  then have s5: "v div 81 mod 3 = v div 81" by simp
  show ?thesis using s1 s2 s3 s4 s5 by linarith
qed

text \<open>Two values of [0,242] with the same code have the same five digits, so they are equal.\<close>

lemma int_to_ternary_inj:
  assumes "0 \<le> a" "a \<le> 242" "0 \<le> b" "b \<le> 242" "int_to_ternary a = int_to_ternary b"
  shows "a = b"
proof -
  have ma: "a mod 243 = a" and mb: "b mod 243 = b" using assms by simp_all
  from assms(5) have
    e4: "ternary_digit (a div 81 mod 3) = ternary_digit (b div 81 mod 3)" and
    e3: "ternary_digit (a div 27 mod 3) = ternary_digit (b div 27 mod 3)" and
    e2: "ternary_digit (a div 9 mod 3) = ternary_digit (b div 9 mod 3)" and
    e1: "ternary_digit (a div 3 mod 3) = ternary_digit (b div 3 mod 3)" and
    e0: "ternary_digit (a mod 3) = ternary_digit (b mod 3)"
    by (simp_all add: int_to_ternary_digits ma mb)
  have d4: "a div 81 mod 3 = b div 81 mod 3" by (rule ternary_digit_inj [OF _ _ _ _ e4]) simp_all
  have d3: "a div 27 mod 3 = b div 27 mod 3" by (rule ternary_digit_inj [OF _ _ _ _ e3]) simp_all
  have d2: "a div 9 mod 3 = b div 9 mod 3" by (rule ternary_digit_inj [OF _ _ _ _ e2]) simp_all
  have d1: "a div 3 mod 3 = b div 3 mod 3" by (rule ternary_digit_inj [OF _ _ _ _ e1]) simp_all
  have d0: "a mod 3 = b mod 3" by (rule ternary_digit_inj [OF _ _ _ _ e0]) simp_all
  have "a = 81 * (a div 81 mod 3) + 27 * (a div 27 mod 3) + 9 * (a div 9 mod 3)
             + 3 * (a div 3 mod 3) + a mod 3"
    using assms by (intro base3_expansion) simp_all
  also have "\<dots> = 81 * (b div 81 mod 3) + 27 * (b div 27 mod 3) + 9 * (b div 9 mod 3)
             + 3 * (b div 3 mod 3) + b mod 3"
    by (simp only: d0 d1 d2 d3 d4)
  also have "\<dots> = b"
    using assms by (intro base3_expansion [symmetric]) simp_all
  finally show ?thesis .
qed

text \<open>
  C6. For every index from 0 to 120, the ternary code of the index has exactly five
  characters, and each of them is one of \<open>0\<close>, \<open>1\<close> and \<open>T\<close>.
\<close>

theorem C6_int_to_ternary_shape:
  assumes "0 \<le> index" "index \<le> 120"
  shows "length (int_to_ternary index) = 5 \<and>
         set (int_to_ternary index) \<subseteq> {CHR ''0'', CHR ''1'', CHR ''T''}"
  using ternary_digit_alphabet by (simp add: int_to_ternary_digits)

theorem C6_int_to_ternary_shape_witness:
  "(0::int) \<le> 120 \<and> (120::int) \<le> 120 \<and> int_to_ternary 120 = ''11110'' \<and>
   length (int_to_ternary 120) = 5 \<and>
   set (int_to_ternary 120) \<subseteq> {CHR ''0'', CHR ''1'', CHR ''T''}"
  using C6_int_to_ternary_shape [of 120]
  by (simp add: int_to_ternary_digits ternary_digit_def)

text \<open>
  C7. The ternary code of 0 is \<open>00000\<close>, the code of 242 is \<open>TTTTT\<close>, and the encoding is
  injective on the integers from 0 to 242: the 243 inputs have 243 different codes, each of
  five characters.
\<close>

theorem C7_int_to_ternary_injective:
  "int_to_ternary 0 = ''00000'' \<and> int_to_ternary 242 = ''TTTTT'' \<and>
   inj_on int_to_ternary {0..242} \<and>
   card (int_to_ternary ` {0..242}) = 243 \<and>
   length ` int_to_ternary ` {0..242} = {5}"
proof -
  have ends: "int_to_ternary 0 = ''00000''" "int_to_ternary 242 = ''TTTTT''"
    by (simp_all add: int_to_ternary_digits ternary_digit_def)
  have inj: "inj_on int_to_ternary {0..242}"
    by (rule inj_onI) (auto intro: int_to_ternary_inj)
  then have "card (int_to_ternary ` {0..242}) = 243"
    by (simp add: card_image)
  moreover have "length ` int_to_ternary ` {0..242} = {5}"
  proof -
    have len: "length (int_to_ternary v) = 5" for v
      by (simp add: int_to_ternary_digits)
    have ne: "{0..242::int} \<noteq> {}" by simp
    have "length ` int_to_ternary ` {0..242} = (\<lambda>v. 5) ` {0..242::int}"
      by (simp only: image_image len)
    also have "\<dots> = {5}"
      using ne by (simp only: image_constant_conv if_False)
    finally show ?thesis .
  qed
  ultimately show ?thesis using ends inj by simp
qed

theorem C7_int_to_ternary_injective_witness:
  "int_to_ternary 5 = ''0001T'' \<and> int_to_ternary 7 = ''000T1'' \<and>
   int_to_ternary 5 \<noteq> int_to_ternary 7"
proof -
  have "inj_on int_to_ternary {0..242}"
    using C7_int_to_ternary_injective by simp
  then have "int_to_ternary 5 \<noteq> int_to_ternary 7"
    by (auto dest: inj_onD)
  then show ?thesis
    by (simp add: int_to_ternary_digits ternary_digit_def)
qed

section \<open>Tiers\<close>

lemma tier_formula_bounds:
  assumes "0 \<le> index" "index \<le> 120"
  shows "1 \<le> tier_formula index \<and> tier_formula index \<le> 9"
proof -
  have "0 \<le> index * 9 div 121"
    using assms by (simp add: pos_imp_zdiv_nonneg_iff)
  moreover have "index * 9 div 121 \<le> 1080 div 121"
    using assms by (intro zdiv_mono1) simp_all
  ultimately show ?thesis by (simp add: tier_formula_def)
qed

lemma tier_formula_mono: "i \<le> j \<Longrightarrow> tier_formula i \<le> tier_formula j"
  by (simp add: tier_formula_def zdiv_mono1)

lemma index_to_tier_mono: "i \<le> j \<Longrightarrow> index_to_tier i \<le> index_to_tier j"
  using tier_formula_mono [of i j] by (simp add: index_to_tier_def Let_def)

lemma index_to_tier_unclamped:
  "0 \<le> index \<Longrightarrow> index \<le> 120 \<Longrightarrow> index_to_tier index = tier_formula index"
  using tier_formula_bounds [of index] by (simp add: index_to_tier_def Let_def)

lemma index_to_tier_bounds:
  "0 \<le> index \<Longrightarrow> index \<le> 120 \<Longrightarrow> 1 \<le> index_to_tier index \<and> index_to_tier index \<le> 9"
  using tier_formula_bounds [of index] by (simp add: index_to_tier_unclamped)

lemma tier_formula_eq_iff:
  "tier_formula i = t \<longleftrightarrow> 121 * (t - 1) \<le> 9 * i \<and> 9 * i < 121 * t"
proof -
  define q where "q = i * 9 div 121"
  define r where "r = i * 9 mod 121"
  have split: "9 * i = 121 * q + r" and r: "0 \<le> r" "r < 121"
    by (simp_all add: q_def r_def)
  have "q + 1 = t \<longleftrightarrow> 121 * (t - 1) \<le> 9 * i \<and> 9 * i < 121 * t"
    using split r by auto
  then show ?thesis by (simp only: tier_formula_def q_def)
qed

lemma tier_range:
  assumes "0 \<le> lo" "hi \<le> 120"
    and "9 * (lo - 1) < 121 * (t - 1)" "121 * (t - 1) \<le> 9 * lo"
    and "9 * hi < 121 * t" "121 * t \<le> 9 * (hi + 1)"
  shows "{i \<in> {0..120}. index_to_tier i = t} = {lo..hi}"
proof (rule set_eqI)
  fix i :: int
  show "i \<in> {i \<in> {0..120}. index_to_tier i = t} \<longleftrightarrow> i \<in> {lo..hi}"
  proof (cases "0 \<le> i \<and> i \<le> 120")
    case True
    then have "index_to_tier i = t \<longleftrightarrow> 121 * (t - 1) \<le> 9 * i \<and> 9 * i < 121 * t"
      by (simp add: index_to_tier_unclamped tier_formula_eq_iff)
    also have "\<dots> \<longleftrightarrow> lo \<le> i \<and> i \<le> hi"
      using assms by auto
    finally show ?thesis using True by simp
  next
    case False
    then show ?thesis using assms by auto
  qed
qed

lemma tier_values:
  "index_to_tier 0 = 1" "index_to_tier 14 = 2" "index_to_tier 27 = 3" "index_to_tier 41 = 4"
  "index_to_tier 54 = 5" "index_to_tier 68 = 6" "index_to_tier 81 = 7" "index_to_tier 95 = 8"
  "index_to_tier 108 = 9" "index_to_tier 120 = 9"
  by (simp_all add: index_to_tier_def tier_formula_def)

lemma tier_image: "index_to_tier ` {0..120} = {1..9}"
proof
  show "index_to_tier ` {0..120} \<subseteq> {1..9}"
    using index_to_tier_bounds by auto
  show "{1..9} \<subseteq> index_to_tier ` {0..120}"
  proof
    fix t :: int
    assume "t \<in> {1..9}"
    then have "t = 1 \<or> t = 2 \<or> t = 3 \<or> t = 4 \<or> t = 5 \<or> t = 6 \<or> t = 7 \<or> t = 8 \<or> t = 9"
      by auto
    moreover have "index_to_tier i \<in> index_to_tier ` {0..120}" if "0 \<le> i" "i \<le> 120" for i
      using that by simp
    from this [of 0] this [of 14] this [of 27] this [of 41] this [of 54] this [of 68]
      this [of 81] this [of 95] this [of 108]
    have "1 \<in> index_to_tier ` {0..120}" "2 \<in> index_to_tier ` {0..120}"
      "3 \<in> index_to_tier ` {0..120}" "4 \<in> index_to_tier ` {0..120}"
      "5 \<in> index_to_tier ` {0..120}" "6 \<in> index_to_tier ` {0..120}"
      "7 \<in> index_to_tier ` {0..120}" "8 \<in> index_to_tier ` {0..120}"
      "9 \<in> index_to_tier ` {0..120}"
      by (simp_all add: tier_values)
    ultimately show "t \<in> index_to_tier ` {0..120}" by blast
  qed
qed

text \<open>
  C4. The tier of every index from 0 to 120 lies between 1 and 9; the tier does not decrease
  when the index grows; index 0 has tier 1 and index 120 has tier 9; every tier from 1 to 9
  is the tier of some index of [0,120]; and the indices of each tier form one contiguous
  range, the nine ranges following each other from 0 to 120.
\<close>

theorem C4_index_to_tier_partition:
  "(\<forall>index. 0 \<le> index \<and> index \<le> 120 \<longrightarrow>
      1 \<le> index_to_tier index \<and> index_to_tier index \<le> 9) \<and>
   (\<forall>i j. i \<le> j \<longrightarrow> index_to_tier i \<le> index_to_tier j) \<and>
   index_to_tier 0 = 1 \<and> index_to_tier 120 = 9 \<and>
   index_to_tier ` {0..120} = {1..9} \<and>
   {i \<in> {0..120}. index_to_tier i = 1} = {0..13} \<and>
   {i \<in> {0..120}. index_to_tier i = 2} = {14..26} \<and>
   {i \<in> {0..120}. index_to_tier i = 3} = {27..40} \<and>
   {i \<in> {0..120}. index_to_tier i = 4} = {41..53} \<and>
   {i \<in> {0..120}. index_to_tier i = 5} = {54..67} \<and>
   {i \<in> {0..120}. index_to_tier i = 6} = {68..80} \<and>
   {i \<in> {0..120}. index_to_tier i = 7} = {81..94} \<and>
   {i \<in> {0..120}. index_to_tier i = 8} = {95..107} \<and>
   {i \<in> {0..120}. index_to_tier i = 9} = {108..120}"
proof -
  have r1: "{i \<in> {0..120}. index_to_tier i = 1} = {0..13}"
    by (rule tier_range) simp_all
  have r2: "{i \<in> {0..120}. index_to_tier i = 2} = {14..26}"
    by (rule tier_range) simp_all
  have r3: "{i \<in> {0..120}. index_to_tier i = 3} = {27..40}"
    by (rule tier_range) simp_all
  have r4: "{i \<in> {0..120}. index_to_tier i = 4} = {41..53}"
    by (rule tier_range) simp_all
  have r5: "{i \<in> {0..120}. index_to_tier i = 5} = {54..67}"
    by (rule tier_range) simp_all
  have r6: "{i \<in> {0..120}. index_to_tier i = 6} = {68..80}"
    by (rule tier_range) simp_all
  have r7: "{i \<in> {0..120}. index_to_tier i = 7} = {81..94}"
    by (rule tier_range) simp_all
  have r8: "{i \<in> {0..120}. index_to_tier i = 8} = {95..107}"
    by (rule tier_range) simp_all
  have r9: "{i \<in> {0..120}. index_to_tier i = 9} = {108..120}"
    by (rule tier_range) simp_all
  have bounds: "\<forall>index. 0 \<le> index \<and> index \<le> 120 \<longrightarrow>
      1 \<le> index_to_tier index \<and> index_to_tier index \<le> 9"
    using index_to_tier_bounds by blast
  have mono: "\<forall>i j. i \<le> j \<longrightarrow> index_to_tier i \<le> index_to_tier j"
    using index_to_tier_mono by blast
  show ?thesis
    using bounds mono tier_values(1) tier_values(10) tier_image r1 r2 r3 r4 r5 r6 r7 r8 r9
    by (intro conjI)
qed

theorem C4_index_to_tier_partition_witness:
  "index_to_tier 57 = 5 \<and> 1 \<le> index_to_tier 57 \<and> index_to_tier 57 \<le> 9 \<and>
   index_to_tier 13 = 1 \<and> index_to_tier 14 = 2 \<and> index_to_tier 13 \<le> index_to_tier 14"
proof -
  have "1 \<le> index_to_tier 57 \<and> index_to_tier 57 \<le> 9"
    using C4_index_to_tier_partition by simp
  moreover have "index_to_tier 13 \<le> index_to_tier 14"
    using C4_index_to_tier_partition by simp
  ultimately show ?thesis
    by (simp add: index_to_tier_def tier_formula_def)
qed

text \<open>
  C5, as stated: at index 120 the formula of line 107 would exceed 9 without the clamp.
  It does not: \<open>120 * 9 div 121 + 1 = 9\<close>, and \<open>min\<close> leaves the value as it is.
\<close>

theorem C5_clamp_idle_at_120:
  "tier_formula 120 = 9 \<and> \<not> 9 < tier_formula 120 \<and>
   index_to_tier 120 = tier_formula 120"
  by (simp add: index_to_tier_def tier_formula_def)

text \<open>
  C5, amended. For every index of 120 or less, so for every index from 0 to 120 and for a
  negative one as well, the formula of line 107 is already at most 9 (exactly 9 at index
  120), and the clamp returns it unchanged. The clamp changes the result exactly for an
  index of 121 or more: there the formula is at least 10 and the tier is 9.
\<close>

theorem C5_clamp_only_beyond_120:
  "(index \<le> 120 \<longrightarrow>
      tier_formula index \<le> 9 \<and> index_to_tier index = tier_formula index) \<and>
   tier_formula 120 = 9 \<and>
   (121 \<le> index \<longrightarrow> 10 \<le> tier_formula index \<and> index_to_tier index = 9) \<and>
   (index_to_tier index \<noteq> tier_formula index \<longleftrightarrow> 121 \<le> index)"
proof -
  have low: "tier_formula index \<le> 9 \<and> index_to_tier index = tier_formula index"
    if "index \<le> 120"
  proof -
    have "index * 9 div 121 \<le> 1080 div 121"
      using that by (intro zdiv_mono1) simp_all
    then have "tier_formula index \<le> 9" by (simp add: tier_formula_def)
    then show ?thesis by (simp add: index_to_tier_def Let_def)
  qed
  have high: "10 \<le> tier_formula index \<and> index_to_tier index = 9"
    if "121 \<le> index"
  proof -
    have "1089 div 121 \<le> index * 9 div 121"
      using that by (intro zdiv_mono1) simp_all
    then have "10 \<le> tier_formula index" by (simp add: tier_formula_def)
    then show ?thesis by (simp add: index_to_tier_def Let_def)
  qed
  have at120: "tier_formula 120 = 9" by (simp add: tier_formula_def)
  have only: "index_to_tier index \<noteq> tier_formula index \<longleftrightarrow> 121 \<le> index"
  proof (cases "index \<le> 120")
    case True
    then show ?thesis using low by simp
  next
    case False
    then have "121 \<le> index" by simp
    then show ?thesis using high by simp
  qed
  show ?thesis using low high at120 only by blast
qed

theorem C5_clamp_only_beyond_120_witness:
  "tier_formula (- 1) = 0 \<and> index_to_tier (- 1) = 0 \<and>
   tier_formula 120 = 9 \<and> index_to_tier 120 = 9 \<and>
   tier_formula 121 = 10 \<and> index_to_tier 121 = 9"
  using C5_clamp_only_beyond_120 [of "- 1"] C5_clamp_only_beyond_120 [of 120]
    C5_clamp_only_beyond_120 [of 121]
  by (simp add: tier_formula_def)

section \<open>Breath patterns\<close>

lemma py_int_le_iff:
  assumes "0 \<le> k"
  shows "py_int x \<le> k \<longleftrightarrow> x < of_int k + 1"
proof (cases "0 \<le> x")
  case True
  then show ?thesis by (simp add: py_int_def floor_le_iff)
next
  case False
  then have "\<lceil>x\<rceil> \<le> 0" by (simp add: ceiling_le_iff)
  then have "\<lceil>x\<rceil> \<le> k" using assms by linarith
  moreover have "x < of_int k + 1" using False assms by linarith
  ultimately show ?thesis using False by (simp add: py_int_def)
qed

lemma encode_phase_buckets:
  "encode_phase s = (if s < 2 then 0 else if s < 3 then 1 else if s < 4 then 2 else 3)"
  using py_int_le_iff [of 1 s] py_int_le_iff [of 2 s] py_int_le_iff [of 3 s]
  by (simp add: encode_phase_def Let_def)

lemma encode_phase_cases: "encode_phase s \<in> {0, 1, 2, 3}"
  by (simp add: encode_phase_buckets)

lemma pack4:
  assumes "a \<in> {0, 1, 2, 3::int}" "b \<in> {0, 1, 2, 3::int}" "c \<in> {0, 1, 2, 3::int}" "d \<in> {0, 1, 2, 3::int}"
  shows "(((0 OR a) OR push_bit 2 b) OR push_bit 4 c) OR push_bit 6 d = a + 4 * b + 16 * c + 64 * d"
  using assms by (elim insertE emptyE) (simp_all add: push_bit_eq_mult)


text \<open>Four buckets of two bits each, joined by \<open>OR\<close>, add up without carries.\<close>

lemma split4:
  fixes a k :: int
  assumes "a \<in> {0, 1, 2, 3}"
  shows "(a + 4 * k) mod 4 = a" and "(a + 4 * k) div 4 = k"
  using assms by auto

lemma unpack4:
  assumes "a \<in> {0, 1, 2, 3::int}" "b \<in> {0, 1, 2, 3::int}" "c \<in> {0, 1, 2, 3::int}" "d \<in> {0, 1, 2, 3::int}"
  shows "(a + 4 * b + 16 * c + 64 * d) mod 4 = a"
    and "(a + 4 * b + 16 * c + 64 * d) div 4 mod 4 = b"
    and "(a + 4 * b + 16 * c + 64 * d) div 16 mod 4 = c"
    and "(a + 4 * b + 16 * c + 64 * d) div 64 = d"
    and "0 \<le> a + 4 * b + 16 * c + 64 * d"
    and "a + 4 * b + 16 * c + 64 * d \<le> 255"
proof -
  let ?x = "a + 4 * b + 16 * c + 64 * d"
  have x: "?x = a + 4 * (b + 4 * (c + 4 * d))" by simp
  have q1: "?x div 4 = b + 4 * (c + 4 * d)"
    unfolding x using assms(1) by (rule split4(2))
  have q2: "?x div 16 = c + 4 * d"
  proof -
    have "?x div 16 = ?x div 4 div 4"
      using zdiv_zmult2_eq [of 4 ?x 4] by simp
    also have "\<dots> = c + 4 * d"
      unfolding q1 using assms(2) by (rule split4(2))
    finally show ?thesis .
  qed
  show "?x mod 4 = a"
    unfolding x using assms(1) by (rule split4(1))
  show "?x div 4 mod 4 = b"
    unfolding q1 using assms(2) by (rule split4(1))
  show "?x div 16 mod 4 = c"
    unfolding q2 using assms(3) by (rule split4(1))
  show "?x div 64 = d"
  proof -
    have "?x div 64 = ?x div 16 div 4"
      using zdiv_zmult2_eq [of 4 ?x 16] by simp
    also have "\<dots> = d"
      unfolding q2 using assms(3) split4(2) [of c d] assms(4) by auto
    finally show ?thesis .
  qed
  show "0 \<le> ?x" using assms by auto
  show "?x \<le> 255" using assms by auto
qed

lemma encode_breath_pattern_sum:
  "encode_breath_pattern (p0, p1, p2, p3) =
     encode_phase p0 + 4 * encode_phase p1 + 16 * encode_phase p2 + 64 * encode_phase p3"
  using pack4 [OF encode_phase_cases [of p0] encode_phase_cases [of p1]
      encode_phase_cases [of p2] encode_phase_cases [of p3]]
  by (simp add: Let_def)

lemma encode_breath_pattern_byte:
  "0 \<le> encode_breath_pattern p \<and> encode_breath_pattern p \<le> 255"
proof (cases p)
  case (fields p0 p1 p2 p3)
  show ?thesis
    unfolding fields encode_breath_pattern_sum
    using unpack4(5,6) [OF encode_phase_cases [of p0] encode_phase_cases [of p1]
      encode_phase_cases [of p2] encode_phase_cases [of p3]]
    by simp
qed

text \<open>
  C8. A phase duration is truncated to whole seconds and the result \<open>k\<close> is bucketed: 0 if
  \<open>k \<le> 1\<close>, 1 if \<open>k \<le> 2\<close>, 2 if \<open>k \<le> 3\<close>, 3 otherwise. On the duration itself the
  buckets are therefore below 2, below 3, below 4, and 4 or more seconds. Exactly 2 seconds
  gives bucket 1, exactly 3 seconds bucket 2, half a second bucket 0 and 5 seconds bucket 3.
  The byte holds the inhale bucket in bits 0 and 1, the hold-in bucket in bits 2 and 3, the
  exhale bucket in bits 4 and 5 and the hold-out bucket in bits 6 and 7, and nothing above.
\<close>

theorem C8_breath_pattern_encoding:
  "encode_phase s =
     (let k = (if 0 \<le> s then \<lfloor>s\<rfloor> else \<lceil>s\<rceil>)
      in if k \<le> 1 then 0 else if k \<le> 2 then 1 else if k \<le> 3 then 2 else 3) \<and>
   encode_phase s = (if s < 2 then 0 else if s < 3 then 1 else if s < 4 then 2 else 3) \<and>
   encode_phase 2 = 1 \<and> encode_phase 3 = 2 \<and> encode_phase (1 / 2) = 0 \<and> encode_phase 5 = 3 \<and>
   encode_breath_pattern (p0, p1, p2, p3) =
     encode_phase p0 + 4 * encode_phase p1 + 16 * encode_phase p2 + 64 * encode_phase p3 \<and>
   take_bit 2 (encode_breath_pattern (p0, p1, p2, p3)) = encode_phase p0 \<and>
   take_bit 2 (drop_bit 2 (encode_breath_pattern (p0, p1, p2, p3))) = encode_phase p1 \<and>
   take_bit 2 (drop_bit 4 (encode_breath_pattern (p0, p1, p2, p3))) = encode_phase p2 \<and>
   take_bit 2 (drop_bit 6 (encode_breath_pattern (p0, p1, p2, p3))) = encode_phase p3 \<and>
   drop_bit 8 (encode_breath_pattern (p0, p1, p2, p3)) = 0"
proof -
  note u = unpack4 [OF encode_phase_cases [of p0] encode_phase_cases [of p1]
      encode_phase_cases [of p2] encode_phase_cases [of p3]]
  have lit: "encode_phase s =
     (let k = (if 0 \<le> s then \<lfloor>s\<rfloor> else \<lceil>s\<rceil>)
      in if k \<le> 1 then 0 else if k \<le> 2 then 1 else if k \<le> 3 then 2 else 3)"
    by (simp add: encode_phase_def py_int_def)
  have vals: "encode_phase 2 = 1" "encode_phase 3 = 2" "encode_phase (1 / 2) = 0" "encode_phase 5 = 3"
    by (simp_all add: encode_phase_buckets)
  have b0: "take_bit 2 (encode_breath_pattern (p0, p1, p2, p3)) = encode_phase p0"
    using u(1) by (simp only: encode_breath_pattern_sum take_bit_eq_mod) simp
  have b1: "take_bit 2 (drop_bit 2 (encode_breath_pattern (p0, p1, p2, p3))) = encode_phase p1"
    using u(2) by (simp only: encode_breath_pattern_sum take_bit_eq_mod drop_bit_eq_div) simp
  have b2: "take_bit 2 (drop_bit 4 (encode_breath_pattern (p0, p1, p2, p3))) = encode_phase p2"
    using u(3) by (simp only: encode_breath_pattern_sum take_bit_eq_mod drop_bit_eq_div) simp
  have d6: "drop_bit 6 (encode_breath_pattern (p0, p1, p2, p3)) = encode_phase p3"
    using u(4) by (simp only: encode_breath_pattern_sum drop_bit_eq_div) simp
  have b3: "take_bit 2 (drop_bit 6 (encode_breath_pattern (p0, p1, p2, p3))) = encode_phase p3"
    using encode_phase_cases [of p3] unfolding d6 take_bit_eq_mod by auto
  have b4: "drop_bit 8 (encode_breath_pattern (p0, p1, p2, p3)) = 0"
    using u(5,6) by (simp only: encode_breath_pattern_sum drop_bit_eq_div) simp
  show ?thesis
    using lit encode_phase_buckets [of s] vals encode_breath_pattern_sum [of p0 p1 p2 p3] b0 b1 b2 b3 b4
    by (intro conjI)
qed

theorem C8_breath_pattern_encoding_witness:
  "encode_phase (7 / 2) = 2 \<and> encode_phase (- (7 / 2)) = 0 \<and>
   encode_breath_pattern (4, 2, 4, 2) = 119 \<and>
   take_bit 2 (drop_bit 4 (encode_breath_pattern (4, 2, 4, 2))) = 3"
proof -
  have ph: "encode_phase 4 = 3" "encode_phase 2 = 1"
    by (simp_all add: encode_phase_def py_int_def)
  have "encode_phase (7 / 2) = (if (7 / 2 :: rat) < 2 then 0 else if (7 / 2 :: rat) < 3 then 1
          else if (7 / 2 :: rat) < 4 then 2 else 3)"
    using C8_breath_pattern_encoding [of "7 / 2" 4 2 4 2] by blast
  then have a: "encode_phase (7 / 2) = 2" by simp
  have "encode_phase (- (7 / 2)) = (if (- (7 / 2) :: rat) < 2 then 0 else if (- (7 / 2) :: rat) < 3 then 1
          else if (- (7 / 2) :: rat) < 4 then 2 else 3)"
    using C8_breath_pattern_encoding [of "- (7 / 2)" 4 2 4 2] by blast
  then have b: "encode_phase (- (7 / 2)) = 0" by simp
  have "encode_breath_pattern (4, 2, 4, 2) =
          encode_phase 4 + 4 * encode_phase 2 + 16 * encode_phase 4 + 64 * encode_phase 2"
    using C8_breath_pattern_encoding [of "7 / 2" 4 2 4 2] by blast
  then have c: "encode_breath_pattern (4, 2, 4, 2) = 119" by (simp add: ph)
  have "take_bit 2 (drop_bit 4 (encode_breath_pattern (4, 2, 4, 2))) = encode_phase 4"
    using C8_breath_pattern_encoding [of "7 / 2" 4 2 4 2] by blast
  then have d: "take_bit 2 (drop_bit 4 (encode_breath_pattern (4, 2, 4, 2))) = 3" by (simp only: ph)
  show ?thesis using a b c d by (intro conjI)
qed

section \<open>Flags and records\<close>

lemma sigil_flags_cases:
  "sigil_flags index =
     (if index = 0 \<or> index = 60 \<or> index = 120 then 3
      else if 40 \<le> index \<and> index \<le> 50 then 9
      else if 90 \<le> index \<and> index \<le> 100 then 17 else 1)"
  by (simp add: sigil_flags_def FLAG_ACTIVE_def FLAG_ANCHORED_def FLAG_TRIAD_def
      FLAG_K_FORMATION_def Let_def)

lemma sigil_flags_bounds: "0 \<le> sigil_flags index \<and> sigil_flags index \<le> 0x1B"
  by (simp add: sigil_flags_cases)

text \<open>Both tables have an entry for every tier from 1 to 9.\<close>

lemma tier_enum:
  fixes t :: int
  assumes "1 \<le> t" "t \<le> 9"
  shows "t = 1 \<or> t = 2 \<or> t = 3 \<or> t = 4 \<or> t = 5 \<or> t = 6 \<or> t = 7 \<or> t = 8 \<or> t = 9"
  using assms by arith

lemma SOLFEGGIO_total:
  assumes "1 \<le> t" "t \<le> 9"
  shows "\<exists>f. SOLFEGGIO t = Some f \<and> 174 \<le> f \<and> f \<le> 963"
  using tier_enum [OF assms] by (elim disjE) (simp_all add: SOLFEGGIO_def)

lemma BREATH_PATTERNS_total:
  assumes "1 \<le> t" "t \<le> 9"
  shows "\<exists>p. BREATH_PATTERNS t = Some p"
proof -
  have "BREATH_PATTERNS t \<noteq> None"
    using tier_enum [OF assms] by (elim disjE) (simp_all add: BREATH_PATTERNS_def)
  then show ?thesis by (rule iffD1 [OF not_None_eq])
qed

text \<open>The code and its terminator are six ASCII characters, so the field \<^verbatim>\<open>6s\<close> holds them as they are.\<close>

lemma ternary_digit_ascii: "(of_char (ternary_digit d) :: nat) < 128"
  by (simp add: ternary_digit_def)

lemma encode_ascii_code:
  "encode_ascii (int_to_ternary v @ [CHR 0x00]) = Inr (map of_char (int_to_ternary v) @ [0])"
  by (simp add: encode_ascii_def int_to_ternary_digits ternary_digit_ascii)

lemma pack_s_exact: "length bs = n \<Longrightarrow> pack_s n bs = bs"
  by (simp add: pack_s_def)

lemma pack_6sBHBB_ok:
  assumes "length s = 6" "0 \<le> a" "a \<le> 255" "0 \<le> h" "h \<le> 65535"
    "0 \<le> b" "b \<le> 255" "0 \<le> c" "c \<le> 255"
  shows "pack_6sBHBB s a h b c =
     Inr (s @ [word_of_int a, word_of_int (h mod 256), word_of_int (h div 256),
               word_of_int b, word_of_int c])"
  using assms by (simp add: pack_6sBHBB_def pack_B_def pack_H_def pack_s_exact)

text \<open>The bytes of the record of an index from 0 to 120, field by field.\<close>

lemma generate_sigil_layout:
  assumes "0 \<le> index" "index \<le> 120"
  shows "\<exists>f p. SOLFEGGIO (index_to_tier index) = Some f \<and> 174 \<le> f \<and> f \<le> 963 \<and>
           BREATH_PATTERNS (index_to_tier index) = Some p \<and>
           generate_sigil index =
             Inr (map of_char (int_to_ternary index) @
                  [0, word_of_int index, word_of_int (f mod 256), word_of_int (f div 256),
                   word_of_int (encode_breath_pattern p), word_of_int (sigil_flags index)])"
proof -
  have t: "1 \<le> index_to_tier index" "index_to_tier index \<le> 9"
    using index_to_tier_bounds [OF assms] by simp_all
  obtain f where f: "SOLFEGGIO (index_to_tier index) = Some f" "174 \<le> f" "f \<le> 963"
    using SOLFEGGIO_total [OF t] by blast
  obtain p where p: "BREATH_PATTERNS (index_to_tier index) = Some p"
    using BREATH_PATTERNS_total [OF t] by blast
  have len: "length (map of_char (int_to_ternary index) @ [0 :: byte]) = 6"
    by (simp add: int_to_ternary_digits)
  have "generate_sigil index =
      pack_6sBHBB (map of_char (int_to_ternary index) @ [0]) index f
        (encode_breath_pattern p) (sigil_flags index)"
    by (simp add: generate_sigil_def encode_ascii_code f p Let_def)
  also have "\<dots> = Inr ((map of_char (int_to_ternary index) @ [0]) @
      [word_of_int index, word_of_int (f mod 256), word_of_int (f div 256),
       word_of_int (encode_breath_pattern p), word_of_int (sigil_flags index)])"
    using assms f(2,3) encode_breath_pattern_byte [of p] sigil_flags_bounds [of index]
    by (intro pack_6sBHBB_ok [OF len]) simp_all
  finally show ?thesis using f p by simp
qed

text \<open>Decoding the two bytes that \<^verbatim>\<open>H\<close> writes gives the value back.\<close>

lemma le_uint_H:
  assumes "0 \<le> h" "h \<le> 65535"
  shows "le_uint [word_of_int (h mod 256), word_of_int (h div 256)] = nat h"
proof -
  have a: "unat (word_of_int (h mod 256) :: byte) = nat (h mod 256)"
    by (simp add: unat_eq_nat_uint uint_word_of_int take_bit_eq_mod)
  have "0 \<le> h div 256" "h div 256 < 256" using assms by simp_all
  then have b: "unat (word_of_int (h div 256) :: byte) = nat (h div 256)"
    by (simp add: unat_eq_nat_uint uint_word_of_int take_bit_eq_mod)
  have "le_uint [word_of_int (h mod 256), word_of_int (h div 256)] =
      nat (h mod 256) + 256 * nat (h div 256)"
    by (simp add: a b)
  also have "\<dots> = nat h"
  proof -
    have "int (nat (h mod 256) + 256 * nat (h div 256)) = h mod 256 + 256 * (h div 256)"
      using \<open>0 \<le> h div 256\<close> by simp
    also have "\<dots> = h" by simp
    finally show ?thesis by linarith
  qed
  finally show ?thesis .
qed

lemma flags_byte_cases:
  "(word_of_int (sigil_flags index) :: byte) =
     (if index = 0 \<or> index = 60 \<or> index = 120 then 3
      else if 40 \<le> index \<and> index \<le> 50 then 9
      else if 90 \<le> index \<and> index \<le> 100 then 17 else 1)"
  by (simp add: sigil_flags_cases)

text \<open>
  C3. For every index from 0 to 120 the last byte of the record is the flags byte. Its
  bit 0 (ACTIVE, 0x01) is set; bit 1 (ANCHORED, 0x02) is set exactly for the indices 0, 60
  and 120; bit 3 (TRIAD, 0x08) exactly for the indices 40 to 50; bit 4 (K_FORMATION, 0x10)
  exactly for the indices 90 to 100; bit 2 (RESONANT, 0x04) and the bits 5 to 7 are never set.
\<close>

theorem C3_flags_byte:
  assumes "0 \<le> index" "index \<le> 120"
  shows "\<exists>fields flags.
           generate_sigil index = Inr (fields @ [flags]) \<and>
           flags = word_of_int (sigil_flags index) \<and>
           bit flags 0 \<and>
           (bit flags 1 \<longleftrightarrow> index = 0 \<or> index = 60 \<or> index = 120) \<and>
           \<not> bit flags 2 \<and>
           (bit flags 3 \<longleftrightarrow> 40 \<le> index \<and> index \<le> 50) \<and>
           (bit flags 4 \<longleftrightarrow> 90 \<le> index \<and> index \<le> 100) \<and>
           \<not> bit flags 5 \<and> \<not> bit flags 6 \<and> \<not> bit flags 7 \<and>
           FLAG_ACTIVE = 2 ^ 0 \<and> FLAG_ANCHORED = 2 ^ 1 \<and> FLAG_RESONANT = 2 ^ 2 \<and>
           FLAG_TRIAD = 2 ^ 3 \<and> FLAG_K_FORMATION = 2 ^ 4"
proof -
  obtain f p where
    g: "generate_sigil index =
             Inr (map of_char (int_to_ternary index) @
                  [0, word_of_int index, word_of_int (f mod 256), word_of_int (f div 256),
                   word_of_int (encode_breath_pattern p), word_of_int (sigil_flags index)])"
    using generate_sigil_layout [OF assms] by blast
  let ?fields = "map of_char (int_to_ternary index) @
                  [0, word_of_int index, word_of_int (f mod 256), word_of_int (f div 256),
                   word_of_int (encode_breath_pattern p) :: byte]"
  let ?flags = "word_of_int (sigil_flags index) :: byte"
  have g': "generate_sigil index = Inr (?fields @ [?flags])"
    using g by simp
  have b0: "bit ?flags 0" by (simp add: flags_byte_cases)
  have b1: "bit ?flags 1 \<longleftrightarrow> index = 0 \<or> index = 60 \<or> index = 120"
    by (simp add: flags_byte_cases)
  have b2: "\<not> bit ?flags 2" by (simp add: flags_byte_cases)
  have b3: "bit ?flags 3 \<longleftrightarrow> 40 \<le> index \<and> index \<le> 50"
    by (simp add: flags_byte_cases)
  have b4: "bit ?flags 4 \<longleftrightarrow> 90 \<le> index \<and> index \<le> 100"
    by (simp add: flags_byte_cases)
  have b5: "\<not> bit ?flags 5" by (simp add: flags_byte_cases)
  have b6: "\<not> bit ?flags 6" by (simp add: flags_byte_cases)
  have b7: "\<not> bit ?flags 7" by (simp add: flags_byte_cases)
  have c: "FLAG_ACTIVE = 2 ^ 0" "FLAG_ANCHORED = 2 ^ 1" "FLAG_RESONANT = 2 ^ 2"
    "FLAG_TRIAD = 2 ^ 3" "FLAG_K_FORMATION = 2 ^ 4"
    by (simp_all add: FLAG_ACTIVE_def FLAG_ANCHORED_def FLAG_RESONANT_def FLAG_TRIAD_def
        FLAG_K_FORMATION_def)
  from g' b0 b1 b2 b3 b4 b5 b6 b7 c show ?thesis
    by (intro exI [of _ ?fields] exI [of _ ?flags] conjI refl)
qed

theorem C3_flags_byte_witness:
  "\<exists>fields flags. generate_sigil 45 = Inr (fields @ [flags]) \<and> flags = 9 \<and>
     bit flags 0 \<and> \<not> bit flags 1 \<and> bit flags 3 \<and> \<not> bit flags 4"
proof -
  have h: "(0::int) \<le> 45" "(45::int) \<le> 120" by simp_all
  obtain fields flags where g: "generate_sigil 45 = Inr (fields @ [flags])"
    and f: "flags = word_of_int (sigil_flags 45)"
    and b: "bit flags 0" "bit flags 1 \<longleftrightarrow> (45::int) = 0 \<or> (45::int) = 60 \<or> (45::int) = 120"
      "bit flags 3 \<longleftrightarrow> (40::int) \<le> 45 \<and> (45::int) \<le> 50"
      "bit flags 4 \<longleftrightarrow> (90::int) \<le> 45 \<and> (45::int) \<le> 100"
    using C3_flags_byte [OF h] by blast
  have v: "flags = 9" by (simp add: f sigil_flags_cases)
  from b have b': "\<not> bit flags 1" "bit flags 3" "\<not> bit flags 4" by simp_all
  from g v b(1) b' show ?thesis
    by (intro exI [of _ fields] exI [of _ flags] conjI)
qed

text \<open>
  C2. For every index from 0 to 120 the record is, in this order: the five characters of
  the ternary code and one null byte (six bytes), the index as one byte, the frequency of
  the tier as two bytes in little-endian order, the breath byte and the flags byte. The
  order and the widths of the fields are those of the format \<^verbatim>\<open><6sBHBB\<close>; they add up to
  11 bytes, one more than the 10 bytes that the docstring of the module gives for a record.
\<close>

theorem C2_record_is_11_bytes:
  assumes "0 \<le> index" "index \<le> 120"
  shows "\<exists>f p freq.
           SOLFEGGIO (index_to_tier index) = Some f \<and>
           BREATH_PATTERNS (index_to_tier index) = Some p \<and>
           length freq = 2 \<and> le_uint freq = nat f \<and>
           generate_sigil index =
             Inr ((map of_char (int_to_ternary index) @ [0]) @ [word_of_int index] @ freq @
                  [word_of_int (encode_breath_pattern p)] @ [word_of_int (sigil_flags index)]) \<and>
           length (map of_char (int_to_ternary index) @ [0 :: byte]) = 6 \<and>
           unat (word_of_int index :: byte) = nat index \<and>
           length ((map of_char (int_to_ternary index) @ [0]) @ [word_of_int index] @ freq @
                  [word_of_int (encode_breath_pattern p)] @ [word_of_int (sigil_flags index) :: byte]) = 11"
proof -
  obtain f p where f: "SOLFEGGIO (index_to_tier index) = Some f" "174 \<le> f" "f \<le> 963"
    and p: "BREATH_PATTERNS (index_to_tier index) = Some p"
    and g: "generate_sigil index =
             Inr (map of_char (int_to_ternary index) @
                  [0, word_of_int index, word_of_int (f mod 256), word_of_int (f div 256),
                   word_of_int (encode_breath_pattern p), word_of_int (sigil_flags index)])"
    using generate_sigil_layout [OF assms] by blast
  let ?freq = "[word_of_int (f mod 256), word_of_int (f div 256) :: byte]"
  have len: "length (map of_char (int_to_ternary index) @ [0 :: byte]) = 6"
    by (simp add: int_to_ternary_digits)
  have dec: "le_uint ?freq = nat f"
    using f by (intro le_uint_H) simp_all
  have reg: "unat (word_of_int index :: byte) = nat index"
    using assms by (simp add: unat_eq_nat_uint uint_word_of_int take_bit_eq_mod)
  have g': "generate_sigil index =
      Inr ((map of_char (int_to_ternary index) @ [0]) @ [word_of_int index] @ ?freq @
           [word_of_int (encode_breath_pattern p)] @ [word_of_int (sigil_flags index)])"
    using g by simp
  have total: "length ((map of_char (int_to_ternary index) @ [0]) @ [word_of_int index :: byte] @ ?freq @
      [word_of_int (encode_breath_pattern p) :: byte] @ [word_of_int (sigil_flags index) :: byte]) = 11"
    using len by simp
  have "length ?freq = 2" by simp
  with f(1) p dec g' len reg total show ?thesis
    by (intro exI [of _ f] exI [of _ p] exI [of _ ?freq] conjI)
qed

theorem C2_record_is_11_bytes_witness:
  "generate_sigil 60 = Inr [48, 84, 48, 84, 48, 0, 60, 16, 2, 85, 3] \<and>
   (\<exists>bs. generate_sigil 60 = Inr bs \<and> length bs = 11 \<and> length bs \<noteq> 10)"
proof -
  have h: "(0::int) \<le> 60" "(60::int) \<le> 120" by simp_all
  obtain bs where "generate_sigil 60 = Inr bs" "length bs = 11"
    using C2_record_is_11_bytes [OF h] by blast
  then have "\<exists>bs. generate_sigil 60 = Inr bs \<and> length bs = 11 \<and> length bs \<noteq> 10"
    by simp
  moreover have "generate_sigil 60 = Inr [48, 84, 48, 84, 48, 0, 60, 16, 2, 85, 3]"
    by (simp add: generate_sigil_def encode_ascii_def int_to_ternary_digits ternary_digit_def
      index_to_tier_def tier_formula_def SOLFEGGIO_def BREATH_PATTERNS_def Let_def
      encode_breath_pattern_sum encode_phase_buckets sigil_flags_cases
      pack_6sBHBB_def pack_B_def pack_H_def pack_s_def)
  ultimately show ?thesis by (intro conjI)
qed

text \<open>
  C9. In the record of index 0 the region byte is 0, the frequency field holds 174 in
  little-endian order, and the flags byte is 0x03: ACTIVE and ANCHORED and nothing else.
\<close>

theorem C9_record_of_index_0:
  "generate_sigil 0 =
     Inr ((map of_char (int_to_ternary 0) @ [0]) @ [0] @ [174, 0] @ [119] @ [3]) \<and>
   length (map of_char (int_to_ternary 0) @ [0 :: byte]) = 6 \<and>
   le_uint [174, 0] = 174 \<and>
   SOLFEGGIO (index_to_tier 0) = Some 174 \<and>
   sigil_flags 0 = FLAG_ACTIVE OR FLAG_ANCHORED \<and>
   word_of_int (sigil_flags 0) = (3 :: byte) \<and>
   (3 :: byte) = 0x01 OR 0x02"
proof -
  have "generate_sigil 0 = Inr [48, 48, 48, 48, 48, 0, 0, 174, 0, 119, 3]"
    by (simp add: generate_sigil_def encode_ascii_def int_to_ternary_digits ternary_digit_def
      index_to_tier_def tier_formula_def SOLFEGGIO_def BREATH_PATTERNS_def Let_def
      encode_breath_pattern_sum encode_phase_buckets sigil_flags_cases
      pack_6sBHBB_def pack_B_def pack_H_def pack_s_def)
  moreover have "map of_char (int_to_ternary 0) @ [0 :: byte] = [48, 48, 48, 48, 48, 0]"
    by (simp add: int_to_ternary_digits ternary_digit_def)
  moreover have "SOLFEGGIO (index_to_tier 0) = Some 174"
    by (simp add: index_to_tier_def tier_formula_def SOLFEGGIO_def)
  moreover have "sigil_flags 0 = FLAG_ACTIVE OR FLAG_ANCHORED"
    by (simp add: sigil_flags_cases FLAG_ACTIVE_def FLAG_ANCHORED_def)
  moreover have "word_of_int (sigil_flags 0) = (3 :: byte)"
    by (simp add: sigil_flags_cases)
  ultimately show ?thesis by simp
qed

text \<open>
  C10. For every index from 0 to 120 each value given to \<^verbatim>\<open>struct.pack\<close> fits its field, so
  \<^verbatim>\<open>generate_sigil\<close> returns a record and raises nothing: the code with its terminator
  encodes to exactly six ASCII bytes, which the field \<^verbatim>\<open>6s\<close> keeps as they are; the index fits
  one unsigned byte; the frequency is at most 963 and fits 16 bits; the breath byte of any
  pattern lies in [0,255]; and the flags are at most 0x1B, the \<open>OR\<close> of the four flags in
  use.
\<close>

theorem C10_record_fields_in_range:
  assumes "0 \<le> index" "index \<le> 120"
  shows "\<exists>code_bytes f p bs.
           encode_ascii (int_to_ternary index @ [CHR 0x00]) = Inr code_bytes \<and>
           length code_bytes = 6 \<and> pack_s 6 code_bytes = code_bytes \<and>
           0 \<le> index \<and> index \<le> 255 \<and>
           SOLFEGGIO (index_to_tier index) = Some f \<and> 0 \<le> f \<and> f \<le> 963 \<and> f \<le> 65535 \<and>
           BREATH_PATTERNS (index_to_tier index) = Some p \<and>
           0 \<le> encode_breath_pattern p \<and> encode_breath_pattern p \<le> 255 \<and>
           0 \<le> sigil_flags index \<and> sigil_flags index \<le> 0x1B \<and>
           generate_sigil index =
             pack_6sBHBB code_bytes index f (encode_breath_pattern p) (sigil_flags index) \<and>
           generate_sigil index = Inr bs \<and> \<not> isl (generate_sigil index) \<and>
           0 \<le> encode_breath_pattern q \<and> encode_breath_pattern q \<le> 255 \<and>
           FLAG_ACTIVE OR FLAG_ANCHORED OR FLAG_TRIAD OR FLAG_K_FORMATION = 0x1B"
proof -
  obtain f p where f: "SOLFEGGIO (index_to_tier index) = Some f" "174 \<le> f" "f \<le> 963"
    and p: "BREATH_PATTERNS (index_to_tier index) = Some p"
    and g: "generate_sigil index =
             Inr (map of_char (int_to_ternary index) @
                  [0, word_of_int index, word_of_int (f mod 256), word_of_int (f div 256),
                   word_of_int (encode_breath_pattern p), word_of_int (sigil_flags index)])"
    using generate_sigil_layout [OF assms] by blast
  let ?cb = "map of_char (int_to_ternary index) @ [0 :: byte]"
  have len: "length ?cb = 6" by (simp add: int_to_ternary_digits)
  have ps: "pack_s 6 ?cb = ?cb" using len by (rule pack_s_exact)
  have pk: "generate_sigil index =
      pack_6sBHBB ?cb index f (encode_breath_pattern p) (sigil_flags index)"
    by (simp add: generate_sigil_def encode_ascii_code f p Let_def)
  have ni: "\<not> isl (generate_sigil index)"
    by (simp add: g)
  have fl: "FLAG_ACTIVE OR FLAG_ANCHORED OR FLAG_TRIAD OR FLAG_K_FORMATION = 0x1B"
    by (simp add: FLAG_ACTIVE_def FLAG_ANCHORED_def FLAG_TRIAD_def FLAG_K_FORMATION_def)
  have rng: "0 \<le> index" "index \<le> 255" "0 \<le> f" "f \<le> 65535"
    using assms f by simp_all
  from encode_ascii_code [of index] len ps rng(1,2) f(1) rng(3) f(3) rng(4) p
    encode_breath_pattern_byte [of p, THEN conjunct1] encode_breath_pattern_byte [of p, THEN conjunct2]
    sigil_flags_bounds [of index, THEN conjunct1] sigil_flags_bounds [of index, THEN conjunct2]
    pk g ni
    encode_breath_pattern_byte [of q, THEN conjunct1] encode_breath_pattern_byte [of q, THEN conjunct2]
    fl
  show ?thesis
    by (intro exI [of _ ?cb] exI [of _ f] exI [of _ p] exI conjI)
qed

theorem C10_record_fields_in_range_witness:
  "generate_sigil 120 = Inr [49, 49, 49, 49, 48, 0, 120, 195, 3, 136, 3] \<and>
   \<not> isl (generate_sigil 120) \<and>
   sigil_flags 120 = 3 \<and> SOLFEGGIO (index_to_tier 120) = Some 963"
proof -
  have h: "(0::int) \<le> 120" "(120::int) \<le> 120" by simp_all
  have "\<not> isl (generate_sigil 120)"
    using C10_record_fields_in_range [OF h] by blast
  moreover have "generate_sigil 120 = Inr [49, 49, 49, 49, 48, 0, 120, 195, 3, 136, 3]"
    by (simp add: generate_sigil_def encode_ascii_def int_to_ternary_digits ternary_digit_def
      index_to_tier_def tier_formula_def SOLFEGGIO_def BREATH_PATTERNS_def Let_def
      encode_breath_pattern_sum encode_phase_buckets sigil_flags_cases
      pack_6sBHBB_def pack_B_def pack_H_def pack_s_def)
  moreover have "sigil_flags 120 = 3" by (simp add: sigil_flags_cases)
  moreover have "SOLFEGGIO (index_to_tier 120) = Some 963"
    by (simp add: index_to_tier_def tier_formula_def SOLFEGGIO_def)
  ultimately show ?thesis by (intro conjI)
qed

section \<open>The blob\<close>

lemma generate_sigil_11:
  assumes "0 \<le> index" "index \<le> 120"
  shows "\<exists>bs. generate_sigil index = Inr bs \<and> length bs = 11"
proof -
  obtain bs where "generate_sigil index = Inr (map of_char (int_to_ternary index) @ bs)"
    and "length bs = 6"
    using generate_sigil_layout [OF assms] by force
  then show ?thesis by (simp add: int_to_ternary_digits)
qed

text \<open>
  The loop of \<^verbatim>\<open>main\<close> over indices of [0,120] appends the records of these indices, in the
  order of the list, to what it has so far.
\<close>

lemma sigils_loop_records:
  assumes "list_all (\<lambda>i. 0 \<le> i \<and> i \<le> 120) idxs"
  shows "\<exists>recs. map generate_sigil idxs = map Inr recs \<and>
           length (concat recs) = 11 * length idxs \<and>
           sigils_loop idxs acc = Inr (acc @ concat recs)"
  using assms
proof (induction idxs arbitrary: acc)
  case Nil
  then show ?case by simp
next
  case (Cons i rest)
  from Cons.prems obtain bs where bs: "generate_sigil i = Inr bs" "length bs = 11"
    using generate_sigil_11 [of i] by auto
  from Cons.prems have "list_all (\<lambda>i. 0 \<le> i \<and> i \<le> 120) rest" by simp
  from Cons.IH [OF this, of "acc @ bs"] obtain recs where
    recs: "map generate_sigil rest = map Inr recs" "length (concat recs) = 11 * length rest"
      "sigils_loop rest (acc @ bs) = Inr ((acc @ bs) @ concat recs)"
    by blast
  have "map generate_sigil (i # rest) = map Inr (bs # recs)"
    using bs recs by simp
  moreover have "length (concat (bs # recs)) = 11 * length (i # rest)"
    using bs recs by simp
  moreover have "sigils_loop (i # rest) acc = Inr (acc @ concat (bs # recs))"
    using bs recs by simp
  ultimately show ?case by blast
qed

lemma range_121: "list_all (\<lambda>i. 0 \<le> i \<and> i \<le> 120) [0..120]"
  by (simp add: list_all_iff)

lemma generate_header_bytes: "generate_header = Inr [0x4C, 0x49, 0x47, 0x53, 1, 121, 0, 0]"
  by (simp add: generate_header_def pack_IBBH_def pack_I_def pack_B_def pack_H_def)

text \<open>
  C1. The blob is the header followed by the records of the indices 0 to 120 in ascending
  order. The header is eight bytes: the first four decode, little-endian, to 0x5347494C,
  byte 4 is 1, byte 5 is 121, bytes 6 and 7 are zero. With 121 records of 11 bytes each the
  blob has 1339 bytes, not the 1218 bytes that follow from the docstring's 1210 bytes of
  records.
\<close>

theorem C1_blob_is_1339_bytes:
  "\<exists>header recs.
     generate_header = Inr header \<and>
     header = [0x4C, 0x49, 0x47, 0x53, 1, 121, 0, 0] \<and>
     le_uint (take 4 header) = 0x5347494C \<and>
     header ! 4 = 1 \<and> header ! 5 = 121 \<and> header ! 6 = 0 \<and> header ! 7 = 0 \<and>
     map generate_sigil [0..120] = map Inr recs \<and> length recs = 121 \<and>
     main_total_data = Inr (header @ concat recs) \<and>
     length (header @ concat recs) = 1339"
proof -
  let ?header = "[0x4C, 0x49, 0x47, 0x53, 1, 121, 0, 0] :: byte list"
  obtain recs where recs: "map generate_sigil [0..120] = map Inr recs"
      "length (concat recs) = 11 * length [0::int..120]"
      "sigils_loop [0..120] [] = Inr ([] @ concat recs)"
    using sigils_loop_records [OF range_121, of "[]"] by blast
  have n: "length recs = 121"
  proof -
    have "length (map Inr recs :: (error + byte list) list) = length (map generate_sigil [0..120])"
      using recs(1) by simp
    then show ?thesis by simp
  qed
  have m: "main_total_data = Inr (?header @ concat recs)"
    using recs(3) by (simp add: main_total_data_def generate_header_bytes)
  have l: "length (?header @ concat recs) = 1339"
    using recs(2) by simp
  have d: "le_uint (take 4 ?header) = 0x5347494C" by simp
  have e: "?header ! 4 = 1" "?header ! 5 = 121" "?header ! 6 = 0" "?header ! 7 = 0" by simp_all
  from generate_header_bytes d e recs(1) n m l show ?thesis
    by (intro exI [of _ ?header] exI [of _ recs] conjI refl)
qed

theorem C1_blob_is_1339_bytes_witness:
  "\<exists>blob. main_total_data = Inr blob \<and> length blob = 1339 \<and> length blob \<noteq> 1218 \<and>
     take 8 blob = [0x4C, 0x49, 0x47, 0x53, 1, 121, 0, 0]"
proof -
  obtain header recs where h: "header = ([0x4C, 0x49, 0x47, 0x53, 1, 121, 0, 0] :: byte list)"
    and m: "main_total_data = Inr (header @ concat recs)"
    and l: "length (header @ concat recs) = 1339"
    using C1_blob_is_1339_bytes by blast
  have l': "length (header @ concat recs) \<noteq> 1218"
    using l by simp
  have t: "take 8 (header @ concat recs) = [0x4C, 0x49, 0x47, 0x53, 1, 121, 0, 0]"
    by (simp add: h)
  from m l l' t show ?thesis
    by (intro exI [of _ "header @ concat recs"] conjI)
qed

end
